theory Spec2Isabelle
  imports Main "HOL-Library.Word"
begin

section \<open>JavaScript values as the chat component receives them\<close>

text \<open>
  The component \<^verbatim>\<open>GenieChat.tsx\<close> reads a text input, posts it to the relay and parses the
  reply with \<^verbatim>\<open>response.json()\<close>. TypeScript's annotations are erased when the code runs and
  the reply is typed \<^verbatim>\<open>any\<close>, so a reply is modelled as an arbitrary JSON value.

  A JavaScript string is a sequence of 16-bit code units. A Number is carried as its
  decimal rendering (what \<^verbatim>\<open>Number.prototype.toString\<close> returns): the component never
  computes with a number of the reply, it only tests it for truth, compares it with \<^verbatim>\<open>1\<close>
  and prints it, and all three are functions of the rendering. An object is the list of
  its own properties in the order of the JSON text.
\<close>

type_synonym code_unit = "16 word"
type_synonym jsstring = "code_unit list"
type_synonym jsnumber = jsstring

definition lit :: "string \<Rightarrow> jsstring" where
  "lit s = map of_char s"

datatype jsval =
    JUndefined
  | JNull
  | JBool bool
  | JNum jsnumber
  | JStr jsstring
  | JArr "jsval list"
  | JObj "(jsstring \<times> jsval) list"

text \<open>A thrown value. Every value thrown in \<^verbatim>\<open>sendMessage\<close> is an Error object, and the
  \<^verbatim>\<open>catch\<close> clause reads nothing of it but \<^verbatim>\<open>err.message\<close>.\<close>

datatype exn = Thrown (err_message: jsstring)

text \<open>\<^verbatim>\<open>String.prototype.trim\<close>: WhiteSpace and LineTerminator of ECMAScript (TAB, LF, VT,
  FF, CR, SP, NBSP, the Unicode space separators, LS, PS and the byte order mark) are
  removed at both ends.\<close>

definition isWhiteSpace :: "code_unit \<Rightarrow> bool" where
  "isWhiteSpace c =
     (c \<in> set [0x9, 0xA, 0xB, 0xC, 0xD, 0x20, 0xA0, 0x1680,
               0x2000, 0x2001, 0x2002, 0x2003, 0x2004, 0x2005, 0x2006, 0x2007,
               0x2008, 0x2009, 0x200A, 0x2028, 0x2029, 0x202F, 0x205F, 0x3000, 0xFEFF])"

definition trim :: "jsstring \<Rightarrow> jsstring" where
  "trim s = rev (dropWhile isWhiteSpace (rev (dropWhile isWhiteSpace s)))"

text \<open>ToBoolean, as \<^verbatim>\<open>!x\<close>, \<^verbatim>\<open>x || y\<close> and \<^verbatim>\<open>x && y\<close> apply it. The Numbers \<^verbatim>\<open>0\<close>, \<^verbatim>\<open>-0\<close>
  (both printed \<^verbatim>\<open>0\<close>) and \<^verbatim>\<open>NaN\<close> are false.\<close>

fun truthy :: "jsval \<Rightarrow> bool" where
  "truthy JUndefined = False"
| "truthy JNull = False"
| "truthy (JBool b) = b"
| "truthy (JNum n) = (n \<noteq> lit ''0'' \<and> n \<noteq> lit ''NaN'')"
| "truthy (JStr s) = (s \<noteq> [])"
| "truthy (JArr vs) = True"
| "truthy (JObj ps) = True"

text \<open>The own property \<^verbatim>\<open>k\<close> of a parsed object; where the JSON text repeats a key,
  \<^verbatim>\<open>JSON.parse\<close> keeps the last value.\<close>

definition own :: "(jsstring \<times> jsval) list \<Rightarrow> jsstring \<Rightarrow> jsval option" where
  "own ps k = map_of (rev ps) k"

text \<open>The wording of the TypeErrors is the engine's (here V8's); no result below depends
  on it.\<close>

definition cannot_read :: "string \<Rightarrow> jsstring \<Rightarrow> jsstring" where
  "cannot_read what k =
     lit ''Cannot read properties of '' @ lit what @ lit '' (reading '' @ [0x27] @ k @ [0x27] @ lit '')''"

definition cannot_convert :: jsstring where
  "cannot_convert = lit ''Cannot convert object to primitive value''"

text \<open>The property read \<^verbatim>\<open>v.k\<close>, for the names the component reads (\<^verbatim>\<open>detail\<close>,
  \<^verbatim>\<open>conversation_id\<close>, \<^verbatim>\<open>message_id\<close>, \<^verbatim>\<open>content\<close>, \<^verbatim>\<open>timestamp\<close>, \<^verbatim>\<open>sql_query\<close>,
  \<^verbatim>\<open>query_results\<close>, \<^verbatim>\<open>row_count\<close>, \<^verbatim>\<open>columns\<close>, \<^verbatim>\<open>data\<close>), none of which a prototype
  defines: it throws on \<^verbatim>\<open>null\<close> and \<^verbatim>\<open>undefined\<close>, finds an own property of an object, and
  is \<^verbatim>\<open>undefined\<close> otherwise.\<close>

fun get_prop :: "jsval \<Rightarrow> jsstring \<Rightarrow> exn + jsval" where
  "get_prop JUndefined k = Inl (Thrown (cannot_read ''undefined'' k))"
| "get_prop JNull k = Inl (Thrown (cannot_read ''null'' k))"
| "get_prop (JObj ps) k = Inr (case own ps k of None \<Rightarrow> JUndefined | Some v \<Rightarrow> v)"
| "get_prop v k = Inr JUndefined"

text \<open>ToString. An array is joined with commas, \<^verbatim>\<open>null\<close> and \<^verbatim>\<open>undefined\<close> elements
  printing as nothing. A parsed object prints as \<^verbatim>\<open>[object Object]\<close> through
  \<^verbatim>\<open>Object.prototype.toString\<close>, unless an own property named \<^verbatim>\<open>toString\<close> shadows that
  method: a parsed value is never callable, \<^verbatim>\<open>valueOf\<close> returns the object itself, and the
  conversion throws a TypeError.\<close>

fun ToString :: "jsval \<Rightarrow> exn + jsstring"
  and join :: "jsval list \<Rightarrow> exn + jsstring" where
  "ToString JUndefined = Inr (lit ''undefined'')"
| "ToString JNull = Inr (lit ''null'')"
| "ToString (JBool b) = Inr (if b then lit ''true'' else lit ''false'')"
| "ToString (JNum n) = Inr n"
| "ToString (JStr s) = Inr s"
| "ToString (JArr vs) = join vs"
| "ToString (JObj ps) =
     (if own ps (lit ''toString'') \<noteq> None then Inl (Thrown cannot_convert)
      else Inr (lit ''[object Object]''))"
| "join [] = Inr []"
| "join (v # vs) =
     (case (if v = JUndefined \<or> v = JNull then Inr [] else ToString v) of
        Inl e \<Rightarrow> Inl e
      | Inr s \<Rightarrow>
          (if vs = [] then Inr s
           else (case join vs of Inl e \<Rightarrow> Inl e | Inr t \<Rightarrow> Inr (s @ lit '','' @ t))))"

text \<open>A Date is kept as the expression that made it: \<^verbatim>\<open>new Date()\<close> at a clock reading, or
  \<^verbatim>\<open>new Date(v)\<close>. The constructor converts an object argument to a primitive first
  (\<^verbatim>\<open>valueOf\<close>, which returns the object itself, then \<^verbatim>\<open>toString\<close>), so it throws exactly
  where \<open>ToString\<close> does.\<close>

datatype jsdate = DateNow jsnumber | DateFrom jsval

definition new_Date :: "jsval \<Rightarrow> exn + jsdate" where
  "new_Date v = (case ToString v of Inl e \<Rightarrow> Inl e | Inr s \<Rightarrow> Inr (DateFrom v))"

text \<open>\<^verbatim>\<open>new Error(v)\<close> for a \<open>v\<close> that is not \<^verbatim>\<open>undefined\<close>: the message is \<open>ToString v\<close>.\<close>

definition new_Error :: "jsval \<Rightarrow> exn" where
  "new_Error v = (case ToString v of Inl e \<Rightarrow> e | Inr m \<Rightarrow> Thrown m)"

definition bind :: "exn + 'a \<Rightarrow> ('a \<Rightarrow> exn + 'b) \<Rightarrow> exn + 'b" where
  "bind x f = (case x of Inl e \<Rightarrow> Inl e | Inr a \<Rightarrow> f a)"

section \<open>The state of the component\<close>

datatype sender = User | Assistant

datatype status = Sending | Sent | Error

text \<open>\<^verbatim>\<open>interface Message\<close>. The field \<^verbatim>\<open>id\<close> is \<open>msg_id\<close> here; an absent \<^verbatim>\<open>status\<close> is \<open>None\<close>,
  an absent \<^verbatim>\<open>sql\<close> or \<^verbatim>\<open>results\<close> reads as \<^verbatim>\<open>undefined\<close>.\<close>

record message =
  msg_id :: jsval
  content :: jsval
  sender :: sender
  timestamp :: jsdate
  status :: "status option"
  sql :: jsval
  results :: jsval

text \<open>The \<^verbatim>\<open>useState\<close> cells that \<^verbatim>\<open>sendMessage\<close> reads or writes. (\<^verbatim>\<open>showSqlFor\<close> is only used
  by the rendering of the query toggle.)\<close>

record state =
  messages :: "message list"
  input :: jsstring
  isLoading :: bool
  conversationId :: jsval
  error :: "jsstring option"

definition welcomeMessage :: "jsnumber \<Rightarrow> message" where
  "welcomeMessage t0 =
     \<lparr>msg_id = JStr (lit ''1''),
      content = JStr (lit ''Hello! I'' @ [0x27] @ lit ''m your Databricks Genie assistant. I can help you analyze data, write SQL queries, and provide insights. How can I help you today?''),
      sender = Assistant,
      timestamp = DateNow t0,
      status = None,
      sql = JUndefined,
      results = JUndefined\<rparr>"

definition initial :: "jsnumber \<Rightarrow> state" where
  "initial t0 =
     \<lparr>messages = [welcomeMessage t0], input = [], isLoading = False,
      conversationId = JNull, error = None\<rparr>"

text \<open>The body of the POST to \<^verbatim>\<open>/api/genie/send-message\<close>, before \<^verbatim>\<open>JSON.stringify\<close>.\<close>

record request =
  req_content :: jsval
  req_conversation_id :: jsval

text \<open>A call of \<^verbatim>\<open>sendMessage\<close> suspended at \<^verbatim>\<open>await fetch(...)\<close>: its local \<^verbatim>\<open>userMessage\<close> and
  the \<^verbatim>\<open>conversationId\<close> of the render it closed over.\<close>

record call =
  userMessage :: message
  closed_conversationId :: jsval

text \<open>How the awaited fetch settles: it rejects (a transport error, with the message of the
  error), or it resolves to a response with its \<^verbatim>\<open>ok\<close> flag and a body that
  \<^verbatim>\<open>response.json()\<close> either rejects (with the message of the SyntaxError) or parses.\<close>

datatype body = Unparsable jsstring | Parsed jsval

datatype outcome = Rejected jsstring | Response bool body

fun json :: "body \<Rightarrow> exn + jsval" where
  "json (Unparsable m) = Inl (Thrown m)"
| "json (Parsed v) = Inr v"

text \<open>The component with its environment: the state, the suspended calls, and the requests
  sent so far.\<close>

record world =
  st :: state
  inflight :: "call list"
  requests :: "request list"

definition mount :: "jsnumber \<Rightarrow> world" where
  "mount t0 = \<lparr>st = initial t0, inflight = [], requests = []\<rparr>"

section \<open>sendMessage\<close>

definition generic :: jsstring where
  "generic = lit ''Failed to send message''"

text \<open>Lines 62 to 87: the guard, the optimistic append and the request. \<open>now_id\<close> is the
  reading of \<^verbatim>\<open>Date.now()\<close>, \<open>now_ts\<close> that of \<^verbatim>\<open>new Date()\<close>.\<close>

definition sendMessage :: "jsnumber \<Rightarrow> jsnumber \<Rightarrow> world \<Rightarrow> world" where
  "sendMessage now_id now_ts w =
     (let s = st w in
      if trim (input s) = [] \<or> isLoading s then w
      else
        let um = \<lparr>msg_id = JStr now_id,
                  content = JStr (trim (input s)),
                  sender = User,
                  timestamp = DateNow now_ts,
                  status = Some Sending,
                  sql = JUndefined,
                  results = JUndefined\<rparr>
        in w\<lparr>st := s\<lparr>messages := messages s @ [um], input := [],
                      isLoading := True, error := None\<rparr>,
             inflight := inflight w @
               [\<lparr>userMessage = um, closed_conversationId = conversationId s\<rparr>],
             requests := requests w @
               [\<lparr>req_content = content um,
                 req_conversation_id = conversationId s\<rparr>]\<rparr>)"

text \<open>Lines 89 to 92: what a response that is not \<^verbatim>\<open>ok\<close> throws.\<close>

definition not_ok :: "body \<Rightarrow> exn" where
  "not_ok b =
     (case json b of
        Inl e \<Rightarrow> e
      | Inr errorData \<Rightarrow>
          (case get_prop errorData (lit ''detail'') of
             Inl e \<Rightarrow> e
           | Inr detail \<Rightarrow> new_Error (if truthy detail then detail else JStr generic)))"

text \<open>Lines 102 to 109: the assistant message, its fields evaluated in order.\<close>

definition assistantMessage :: "jsval \<Rightarrow> jsnumber \<Rightarrow> exn + message" where
  "assistantMessage data now =
     bind (get_prop data (lit ''message_id'')) (\<lambda>mid.
     bind (get_prop data (lit ''content'')) (\<lambda>c.
     bind (get_prop data (lit ''timestamp'')) (\<lambda>ts.
     bind (new_Date ts) (\<lambda>d.
     bind (get_prop data (lit ''sql_query'')) (\<lambda>q.
     bind (get_prop data (lit ''query_results'')) (\<lambda>r.
       Inr \<lparr>msg_id = (if truthy mid then mid else JStr now),
            content = c,
            sender = Assistant,
            timestamp = d,
            status = None,
            sql = q,
            results = r\<rparr>))))))"

text \<open>Lines 77 to 109, the \<^verbatim>\<open>try\<close> block after the fetch has settled. It returns the argument
  of \<^verbatim>\<open>setConversationId\<close>, if the block called it, and either the exception that left the
  block or the assistant message it built. (\<^verbatim>\<open>setConversationId\<close> comes before the message
  is built, so it can be followed by an exception.)\<close>

definition try_block :: "call \<Rightarrow> outcome \<Rightarrow> jsnumber \<Rightarrow> jsval option \<times> (exn + message)" where
  "try_block c r now =
     (case r of
        Rejected m \<Rightarrow> (None, Inl (Thrown m))
      | Response ok b \<Rightarrow>
          if \<not> ok then (None, Inl (not_ok b))
          else
            (case json b of
               Inl e \<Rightarrow> (None, Inl e)
             | Inr data \<Rightarrow>
                 (case (if truthy (closed_conversationId c) then Inr JUndefined
                        else get_prop data (lit ''conversation_id'')) of
                    Inl e \<Rightarrow> (None, Inl e)
                  | Inr cid \<Rightarrow>
                      (if \<not> truthy (closed_conversationId c) \<and> truthy cid then Some cid
                       else None,
                       assistantMessage data now))))"

text \<open>Lines 111 to 124: the two reconciliations of the message list and the \<^verbatim>\<open>finally\<close>
  clause. \<^verbatim>\<open>prev.slice(0, -1)\<close> is \<open>butlast prev\<close> (empty when \<open>prev\<close> is).\<close>

definition settle :: "call \<Rightarrow> outcome \<Rightarrow> jsnumber \<Rightarrow> state \<Rightarrow> state" where
  "settle c r now s =
     (case try_block c r now of
        (upd, res) \<Rightarrow>
          let s1 = (case upd of None \<Rightarrow> s | Some cid \<Rightarrow> s\<lparr>conversationId := cid\<rparr>);
              s2 = (case res of
                      Inr am \<Rightarrow>
                        s1\<lparr>messages := butlast (messages s1) @
                              [(userMessage c)\<lparr>status := Some Sent\<rparr>, am]\<rparr>
                    | Inl err \<Rightarrow>
                        s1\<lparr>error := Some (if err_message err \<noteq> [] then err_message err
                                           else generic),
                            messages := butlast (messages s1) @
                              [(userMessage c)\<lparr>status := Some Error\<rparr>]\<rparr>)
          in s2\<lparr>isLoading := False\<rparr>)"

section \<open>Runs of the component\<close>

text \<open>What can happen to a mounted component: the text input changes, \<^verbatim>\<open>sendMessage\<close> is called
  (the button or the Enter key), or the fetch of a suspended call settles and the call runs
  to its end. Each handler sees the state as the handlers before it left it. Between
  \<^verbatim>\<open>await fetch\<close> and the end of the call the code reads only its own locals and updates the
  message list through \<^verbatim>\<open>prev => ...\<close>, so the rest of the call is one step, taken when the
  body has been read.\<close>

datatype event =
    SetInput jsstring
  | Submit jsnumber jsnumber
  | Settle nat outcome jsnumber

fun step :: "world \<Rightarrow> event \<Rightarrow> world" where
  "step w (SetInput t) = w\<lparr>st := (st w)\<lparr>input := t\<rparr>\<rparr>"
| "step w (Submit now_id now_ts) = sendMessage now_id now_ts w"
| "step w (Settle i r now) =
     (if i < length (inflight w)
      then w\<lparr>st := settle (inflight w ! i) r now (st w),
             inflight := take i (inflight w) @ drop (Suc i) (inflight w)\<rparr>
      else w)"

definition run :: "jsnumber \<Rightarrow> event list \<Rightarrow> world" where
  "run t0 evs = foldl step (mount t0) evs"

section \<open>Rendering a result payload\<close>

text \<open>Lines 222 to 274 of the JSX, as a function from \<^verbatim>\<open>message.results\<close> to what is shown.
  An exception thrown while rendering is returned as \<open>Inl\<close>: first the ones of the JSX
  expressions themselves (a missing \<^verbatim>\<open>map\<close> or \<^verbatim>\<open>slice\<close>, a failing \<^verbatim>\<open>String(value)\<close>), then
  the ones of React when it places the children, in the order of the document.\<close>

text \<open>What React shows for a value handed to it as a child (\<^verbatim>\<open>{col}\<close>,
  \<^verbatim>\<open>{message.results.row_count}\<close>): nothing for \<^verbatim>\<open>undefined\<close>, \<^verbatim>\<open>null\<close> and the booleans,
  the text of a number or a string, the children of an array one after the other. An object
  that is not a React element is refused, and a parsed object never is one. The message is
  React's, shortened.\<close>

definition invalid_child :: jsstring where
  "invalid_child = lit ''Objects are not valid as a React child''"

fun react_child :: "jsval \<Rightarrow> exn + jsstring"
  and react_children :: "jsval list \<Rightarrow> exn + jsstring" where
  "react_child JUndefined = Inr []"
| "react_child JNull = Inr []"
| "react_child (JBool b) = Inr []"
| "react_child (JNum n) = Inr n"
| "react_child (JStr s) = Inr s"
| "react_child (JArr vs) = react_children vs"
| "react_child (JObj ps) = Inl (Thrown invalid_child)"
| "react_children [] = Inr []"
| "react_children (v # vs) =
     (case react_child v of
        Inl e \<Rightarrow> Inl e
      | Inr s \<Rightarrow> (case react_children vs of Inl e \<Rightarrow> Inl e | Inr t \<Rightarrow> Inr (s @ t)))"

text \<open>A cell is the string \<^verbatim>\<open>String(value)\<close> or the placeholder for \<^verbatim>\<open>null\<close>. The header cells,
  the label of the header and the truncation note are the texts shown.\<close>

datatype cell = Text jsstring | NullCell

record table_view =
  headers :: "jsstring list"
  rows :: "cell list list"
  truncation_note :: "jsstring option"

datatype results_body = TableView table_view | RawJson jsval

record results_view =
  row_label :: "jsstring option"
  body :: results_body

text \<open>\<^verbatim>\<open>{message.results && (...)}\<close> is the block for a truthy \<^verbatim>\<open>results\<close>, and the falsy value
  itself otherwise, which React shows as a child (\<^verbatim>\<open>0\<close> is printed).\<close>

datatype shown = Bare jsstring | Block results_view

definition not_a_function :: "string \<Rightarrow> jsstring" where
  "not_a_function what = lit what @ lit '' is not a function''"

fun mapE :: "('a \<Rightarrow> exn + 'b) \<Rightarrow> 'a list \<Rightarrow> exn + 'b list" where
  "mapE f [] = Inr []"
| "mapE f (x # xs) = bind (f x) (\<lambda>y. bind (mapE f xs) (\<lambda>ys. Inr (y # ys)))"

text \<open>Lines 251 to 255.\<close>

definition render_cell :: "jsval \<Rightarrow> exn + cell" where
  "render_cell v =
     (if v \<noteq> JNull \<and> v \<noteq> JUndefined then bind (ToString v) (\<lambda>s. Inr (Text s))
      else Inr NullCell)"

text \<open>Line 249, \<^verbatim>\<open>row.map(...)\<close>: only an array has the method.\<close>

fun render_row :: "jsval \<Rightarrow> exn + cell list" where
  "render_row (JArr vs) = mapE render_cell vs"
| "render_row JNull = Inl (Thrown (cannot_read ''null'' (lit ''map'')))"
| "render_row JUndefined = Inl (Thrown (cannot_read ''undefined'' (lit ''map'')))"
| "render_row v = Inl (Thrown (not_a_function ''row.map''))"

text \<open>Line 239, \<^verbatim>\<open>columns.map(...)\<close>, for a truthy \<^verbatim>\<open>columns\<close>: the children of the header
  cells, which React is still to place.\<close>

fun render_columns :: "jsval \<Rightarrow> exn + jsval list" where
  "render_columns (JArr cs) = Inr cs"
| "render_columns v = Inl (Thrown (not_a_function ''message.results.columns.map''))"

text \<open>Lines 247 and 262, for a truthy \<^verbatim>\<open>data\<close>: \<^verbatim>\<open>data.slice(0, 10).map(...)\<close> and
  \<^verbatim>\<open>data.length > 10\<close>. A string has \<^verbatim>\<open>slice\<close> but its slice has no \<^verbatim>\<open>map\<close>.\<close>

fun render_data :: "jsval \<Rightarrow> exn + cell list list \<times> bool" where
  "render_data (JArr rs) =
     bind (mapE render_row (take 10 rs)) (\<lambda>cells. Inr (cells, 10 < length rs))"
| "render_data (JStr s) = Inl (Thrown (not_a_function ''message.results.data.slice(...).map''))"
| "render_data v = Inl (Thrown (not_a_function ''message.results.data.slice''))"

text \<open>Lines 227 to 231: the label \<^verbatim>\<open>{row_count} row{row_count !== 1 ? 's' : ''}\<close>.\<close>

definition render_label :: "jsval \<Rightarrow> exn + jsstring option" where
  "render_label row_count =
     (if row_count \<noteq> JUndefined
      then bind (react_child row_count) (\<lambda>n.
             Inr (Some (n @ lit '' row'' @
                        (if row_count \<noteq> JNum (lit ''1'') then lit ''s'' else []))))
      else Inr None)"

text \<open>Lines 262 to 266: the note, for \<open>longer\<close> the value of \<^verbatim>\<open>data.length > 10\<close>.\<close>

definition render_note :: "bool \<Rightarrow> jsval \<Rightarrow> exn + jsstring option" where
  "render_note longer row_count =
     (if longer
      then bind (react_child row_count) (\<lambda>n.
             Inr (Some (lit ''Showing first 10 rows of '' @ n @ lit '' total'')))
      else Inr None)"

definition render_results :: "jsval \<Rightarrow> exn + shown" where
  "render_results res =
     (if \<not> truthy res then bind (react_child res) (\<lambda>t. Inr (Bare t))
      else
        bind (get_prop res (lit ''row_count'')) (\<lambda>row_count.
        bind (get_prop res (lit ''columns'')) (\<lambda>columns.
        bind (get_prop res (lit ''data'')) (\<lambda>data.
        bind (if truthy columns \<and> truthy data
              then bind (render_columns columns) (\<lambda>ths.
                   bind (render_data data) (\<lambda>(cells, longer). Inr (Some (ths, cells, longer))))
              else Inr None) (\<lambda>table.
        bind (render_label row_count) (\<lambda>label.
          case table of
            None \<Rightarrow> Inr (Block \<lparr>row_label = label, body = RawJson res\<rparr>)
          | Some (ths, cells, longer) \<Rightarrow>
              bind (mapE react_child ths) (\<lambda>hs.
              bind (render_note longer row_count) (\<lambda>n.
                Inr (Block \<lparr>row_label = label,
                            body = TableView
                              \<lparr>headers = hs, rows = cells, truncation_note = n\<rparr>\<rparr>)))))))))"

text \<open>A scalar of a result row, as the relay's interface describes a row, and what lines 251
  to 255 show for it: the placeholder for \<^verbatim>\<open>null\<close>, and \<^verbatim>\<open>String(value)\<close> otherwise, which is
  \<^verbatim>\<open>true\<close> or \<^verbatim>\<open>false\<close>, the digits of a number, or the string itself.\<close>

fun scalar :: "jsval \<Rightarrow> bool" where
  "scalar JNull = True"
| "scalar (JBool b) = True"
| "scalar (JNum n) = True"
| "scalar (JStr s) = True"
| "scalar v = False"

fun shown_scalar :: "jsval \<Rightarrow> cell" where
  "shown_scalar (JBool b) = Text (if b then lit ''true'' else lit ''false'')"
| "shown_scalar (JNum n) = Text n"
| "shown_scalar (JStr s) = Text s"
| "shown_scalar v = NullCell"

section \<open>Auxiliary notions\<close>

text \<open>The worlds that runs go through: the welcome message heads the list, the
  conversation identifier is \<^verbatim>\<open>null\<close> or truthy, and \<open>isLoading\<close> says whether a call is
  suspended. There is at most one, its \<^verbatim>\<open>userMessage\<close> is the last message, still
  \<^verbatim>\<open>sending\<close>, and it closed over the current \<^verbatim>\<open>conversationId\<close>.\<close>

definition pending_ok :: "jsnumber \<Rightarrow> world \<Rightarrow> bool" where
  "pending_ok t0 w =
     (hd (messages (st w)) = welcomeMessage t0 \<and>
      (\<not> truthy (conversationId (st w)) \<longrightarrow> conversationId (st w) = JNull) \<and>
      (case inflight w of
         [] \<Rightarrow> \<not> isLoading (st w) \<and> messages (st w) \<noteq> []
       | [c] \<Rightarrow> isLoading (st w) \<and> 2 \<le> length (messages (st w)) \<and>
                last (messages (st w)) = userMessage c \<and>
                sender (userMessage c) = User \<and>
                status (userMessage c) = Some Sending \<and>
                closed_conversationId c = conversationId (st w)
       | _ \<Rightarrow> False))"

text \<open>The session error as the specification words it for a failed exchange: the reason
  carried by the \<^verbatim>\<open>detail\<close> field of the response, and the generic message when the
  response carries none.\<close>

definition claimed_error :: "outcome \<Rightarrow> jsstring" where
  "claimed_error r =
     (case r of
        Response ok (Parsed (JObj ps)) \<Rightarrow>
          (case own ps (lit ''detail'') of
             Some (JStr d) \<Rightarrow> (if d = [] then generic else d)
           | _ \<Rightarrow> generic)
      | _ \<Rightarrow> generic)"

section \<open>A session used as an example\<close>

text \<open>The scenarios of the specification: the user types a question and submits it; the relay
  answers with a table, or with status 500 and a \<^verbatim>\<open>detail\<close>; a payload of 15 rows.\<close>

definition ex_typed :: "event list" where
  "ex_typed = [SetInput (lit '' What tables are available?  '')]"

definition ex_events :: "event list" where
  "ex_events = [SetInput (lit '' What tables are available?  ''), Submit (lit ''5'') (lit ''6'')]"

definition ex_question :: message where
  "ex_question =
     \<lparr>msg_id = JStr (lit ''5''), content = JStr (lit ''What tables are available?''),
      sender = User, timestamp = DateNow (lit ''6''), status = Some Sending,
      sql = JUndefined, results = JUndefined\<rparr>"

definition ex_call :: call where
  "ex_call = \<lparr>userMessage = ex_question, closed_conversationId = JNull\<rparr>"

definition ex_table :: jsval where
  "ex_table =
     JObj [(lit ''columns'', JArr [JStr (lit ''name'')]),
           (lit ''data'', JArr [JArr [JStr (lit ''orders'')], JArr [JStr (lit ''users'')]]),
           (lit ''row_count'', JNum (lit ''2''))]"

definition ex_reply :: jsval where
  "ex_reply =
     JObj [(lit ''content'', JStr (lit ''Here are your tables'')),
           (lit ''conversation_id'', JStr (lit ''abc123'')),
           (lit ''sql_query'', JStr (lit ''SHOW TABLES'')),
           (lit ''query_results'', ex_table)]"


definition ex_success :: event where
  "ex_success = Settle 0 (Response True (Parsed ex_reply)) (lit ''9'')"

definition ex_failure :: jsval where
  "ex_failure = JObj [(lit ''detail'', JStr (lit ''token expired''))]"

text \<open>Two more replies to a failed exchange: a validation error whose \<^verbatim>\<open>detail\<close> is a list of
  objects, and a \<^verbatim>\<open>detail\<close> that cannot be converted to a string.\<close>

definition ex_invalid :: jsval where
  "ex_invalid = JObj [(lit ''detail'', JArr [JObj [(lit ''msg'', JStr (lit ''field required''))]])]"

definition ex_shadowed :: jsval where
  "ex_shadowed = JObj [(lit ''detail'', JObj [(lit ''toString'', JNum (lit ''1''))])]"

definition ex_followup :: "event list" where
  "ex_followup =
     [SetInput (lit ''And their columns?''), Submit (lit ''10'') (lit ''11''),
      Settle 0 (Response False (Parsed ex_failure)) (lit ''12''),
      SetInput (lit ''Again''), Submit (lit ''13'') (lit ''14'')]"

definition ex_rows :: "jsval list list" where
  "ex_rows =
     [[JStr (lit ''orders''), JNum (lit ''120'')],
      [JStr (lit ''users''), JNum (lit ''48'')],
      [JStr (lit ''events''), JNull],
      [JStr (lit ''carts''), JNum (lit ''7'')],
      [JStr (lit ''items''), JNum (lit ''1'')],
      [JStr (lit ''pages''), JNum (lit ''0'')],
      [JStr (lit ''visits''), JNum (lit ''930'')],
      [JStr (lit ''refunds''), JNum (lit ''3'')],
      [JStr (lit ''stores''), JNum (lit ''12'')],
      [JStr (lit ''staff''), JNum (lit ''64'')],
      [JStr (lit ''regions''), JNum (lit ''5'')],
      [JStr (lit ''coupons''), JNum (lit ''19'')],
      [JStr (lit ''reviews''), JNum (lit ''250'')],
      [JStr (lit ''returns''), JNum (lit ''2'')],
      [JStr (lit ''vendors''), JNum (lit ''31'')]]"

definition ex_payload :: jsval where
  "ex_payload =
     JObj [(lit ''columns'', JArr (map JStr [lit ''name'', lit ''row_count''])),
           (lit ''data'', JArr (map JArr ex_rows)),
           (lit ''row_count'', JNum (lit ''15''))]"

section \<open>Runs stay well-formed\<close>

lemma run_Nil: "run t0 [] = mount t0"
  by (simp add: run_def)

lemma run_snoc: "run t0 (evs @ [e]) = step (run t0 evs) e"
  by (simp add: run_def)

lemma run_append: "run t0 (evs @ evs') = foldl step (run t0 evs) evs'"
  by (simp add: run_def)

lemma pending_ok_mount: "pending_ok t0 (mount t0)"
  by (simp add: pending_ok_def mount_def initial_def)

lemma pending_ok_SetInput: "pending_ok t0 w \<Longrightarrow> pending_ok t0 (step w (SetInput t))"
  by (simp add: pending_ok_def split: list.splits)

lemma pending_ok_Submit: "pending_ok t0 w \<Longrightarrow> pending_ok t0 (step w (Submit a b))"
  by (cases "messages (st w)")
     (auto simp add: pending_ok_def sendMessage_def Let_def split: list.splits)

lemma try_block_upd:
  "try_block c r now = (Some v, res) \<Longrightarrow> truthy v \<and> \<not> truthy (closed_conversationId c)"
  by (auto simp add: try_block_def split: outcome.splits if_splits sum.splits)

lemma messages_settle:
  "messages (settle c r now s) =
     butlast (messages s) @
       (case snd (try_block c r now) of
          Inr am \<Rightarrow> [(userMessage c)\<lparr>status := Some Sent\<rparr>, am]
        | Inl err \<Rightarrow> [(userMessage c)\<lparr>status := Some Error\<rparr>])"
  by (simp add: settle_def Let_def split: prod.splits option.splits sum.splits)

lemma isLoading_settle: "\<not> isLoading (settle c r now s)"
  by (simp add: settle_def Let_def split: prod.splits option.splits sum.splits)

lemma conversationId_settle:
  "conversationId (settle c r now s) =
     (case fst (try_block c r now) of None \<Rightarrow> conversationId s | Some v \<Rightarrow> v)"
  by (simp add: settle_def Let_def split: prod.splits option.splits sum.splits)

lemma hd_butlast_append: "2 \<le> length xs \<Longrightarrow> hd (butlast xs @ ys) = hd xs"
  by (cases xs) (auto split: if_splits)

lemma pending_ok_Settle: "pending_ok t0 w \<Longrightarrow> pending_ok t0 (step w (Settle i r now))"
proof -
  assume a: "pending_ok t0 w"
  show ?thesis
  proof (cases "i < length (inflight w)")
    case False
    with a show ?thesis by simp
  next
    case True
    with a obtain c where c: "inflight w = [c]" "i = 0"
      by (auto simp add: pending_ok_def split: list.splits)
    from a c have m: "2 \<le> length (messages (st w))" "hd (messages (st w)) = welcomeMessage t0"
      and cc: "closed_conversationId c = conversationId (st w)"
      and n: "\<not> truthy (conversationId (st w)) \<longrightarrow> conversationId (st w) = JNull"
      by (simp_all add: pending_ok_def)
    have h: "hd (messages (settle c r now (st w))) = welcomeMessage t0"
      using m by (simp add: messages_settle hd_butlast_append)
    have ne: "messages (settle c r now (st w)) \<noteq> []"
      by (simp add: messages_settle split: sum.splits)
    have cid: "\<not> truthy (conversationId (settle c r now (st w))) \<longrightarrow>
               conversationId (settle c r now (st w)) = JNull"
      using n try_block_upd [of c r now]
      by (cases "try_block c r now") (auto simp add: conversationId_settle split: option.splits)
    show ?thesis
      using c h ne cid by (simp add: pending_ok_def isLoading_settle)
  qed
qed

lemma pending_ok_step: "pending_ok t0 w \<Longrightarrow> pending_ok t0 (step w e)"
  by (cases e) (simp_all only: pending_ok_SetInput pending_ok_Submit pending_ok_Settle)

lemma pending_ok_run: "pending_ok t0 (run t0 evs)"
  by (induction evs rule: rev_induct) (simp_all add: run_Nil run_snoc pending_ok_mount pending_ok_step)


section \<open>Trimming\<close>

lemma all_dropWhile: "(\<forall>x\<in>set (dropWhile P xs). P x) \<longleftrightarrow> (\<forall>x\<in>set xs. P x)"
  by (induction xs) auto

lemma trim_Nil_iff: "trim s = [] \<longleftrightarrow> (\<forall>c\<in>set s. isWhiteSpace c)"
  by (simp add: trim_def dropWhile_eq_Nil_conv all_dropWhile)

lemma last_dropWhile: "dropWhile P xs \<noteq> [] \<Longrightarrow> last (dropWhile P xs) = last xs"
  by (induction xs) auto

lemma trim_decomp:
  "\<exists>l r. s = l @ trim s @ r \<and> (\<forall>c\<in>set l. isWhiteSpace c) \<and> (\<forall>c\<in>set r. isWhiteSpace c)"
proof -
  define m where "m = dropWhile isWhiteSpace s"
  define l where "l = takeWhile isWhiteSpace s"
  define r where "r = rev (takeWhile isWhiteSpace (rev m))"
  have "trim s @ r = rev (takeWhile isWhiteSpace (rev m) @ dropWhile isWhiteSpace (rev m))"
    by (simp only: trim_def m_def r_def rev_append)
  also have "\<dots> = rev (rev m)"
    by (simp only: takeWhile_dropWhile_id)
  finally have m: "m = trim s @ r"
    by simp
  have s: "s = l @ m"
    by (simp add: l_def m_def)
  have wl: "\<forall>c\<in>set l. isWhiteSpace c"
    unfolding l_def by (auto dest: set_takeWhileD)
  have wr: "\<forall>c\<in>set r. isWhiteSpace c"
    unfolding r_def by (auto dest: set_takeWhileD)
  from s m wl wr show ?thesis by blast
qed

lemma trim_ends:
  assumes "trim s \<noteq> []"
  shows "\<not> isWhiteSpace (hd (trim s)) \<and> \<not> isWhiteSpace (last (trim s))"
proof -
  define m where "m = dropWhile isWhiteSpace s"
  define d where "d = dropWhile isWhiteSpace (rev m)"
  have t: "trim s = rev d" by (simp add: trim_def m_def d_def)
  with assms have dne: "d \<noteq> []" by simp
  then have mne: "m \<noteq> []" by (auto simp add: d_def)
  have "\<not> isWhiteSpace (hd d)"
    using dne unfolding d_def by (rule hd_dropWhile)
  then have a: "\<not> isWhiteSpace (last (trim s))"
    using dne by (simp add: t last_rev)
  have "last d = last (rev m)"
    using dne unfolding d_def by (rule last_dropWhile)
  then have "hd (trim s) = hd m"
    using dne mne by (simp add: t hd_rev last_rev)
  moreover have "\<not> isWhiteSpace (hd m)"
    using mne unfolding m_def by (rule hd_dropWhile)
  ultimately show ?thesis using a by simp
qed

section \<open>What a settled fetch does to the state\<close>

lemma status_settle_nth:
  assumes "i < length (messages s)" and "status (messages s ! i) \<noteq> Some Sending"
  shows "i < length (messages (settle c r now s)) \<and>
         status (messages (settle c r now s) ! i) \<noteq> Some Sending"
proof (cases "i < length (butlast (messages s))")
  case True
  then show ?thesis
    using assms by (simp add: messages_settle nth_append nth_butlast split: sum.splits)
next
  case False
  with assms have "i = length (butlast (messages s))" by simp
  then show ?thesis
    by (simp add: messages_settle nth_append split: sum.splits)
qed

lemma status_step_nth:
  assumes "i < length (messages (st w))" and "status (messages (st w) ! i) \<noteq> Some Sending"
  shows "i < length (messages (st (step w e))) \<and>
         status (messages (st (step w e)) ! i) \<noteq> Some Sending"
proof (cases e)
  case (SetInput t)
  with assms show ?thesis by simp
next
  case (Submit a b)
  with assms show ?thesis by (simp add: sendMessage_def Let_def nth_append)
next
  case (Settle j r now)
  with assms show ?thesis by (simp add: status_settle_nth)
qed

lemma try_block_assistant:
  "snd (try_block c r now) = Inr am \<Longrightarrow> sender am = Assistant"
  by (auto simp add: try_block_def assistantMessage_def bind_def
           split: outcome.splits if_splits sum.splits)


lemma pending_last:
  assumes "inflight (run t0 evs) = [c]"
  shows "messages (st (run t0 evs)) = butlast (messages (st (run t0 evs))) @ [userMessage c] \<and>
         butlast (messages (st (run t0 evs))) \<noteq> [] \<and>
         sender (userMessage c) = User \<and> status (userMessage c) = Some Sending \<and>
         closed_conversationId c = conversationId (st (run t0 evs))"
proof -
  have p: "pending_ok t0 (run t0 evs)" by (rule pending_ok_run)
  with assms have l: "2 \<le> length (messages (st (run t0 evs)))"
    and e: "last (messages (st (run t0 evs))) = userMessage c"
    and r: "sender (userMessage c) = User" "status (userMessage c) = Some Sending"
       "closed_conversationId c = conversationId (st (run t0 evs))"
    by (simp_all add: pending_ok_def)
  from l have ne: "messages (st (run t0 evs)) \<noteq> []" by auto
  from l have b: "butlast (messages (st (run t0 evs))) \<noteq> []"
    by (cases "messages (st (run t0 evs))") (auto split: if_splits)
  from ne e have "messages (st (run t0 evs)) = butlast (messages (st (run t0 evs))) @ [userMessage c]"
    by (metis append_butlast_last_id)
  with b r show ?thesis by simp
qed

lemma step_Settle_pending:
  "inflight w = [c] \<Longrightarrow>
     st (step w (Settle 0 r now)) = settle c r now (st w) \<and> inflight (step w (Settle 0 r now)) = []"
  by simp

lemma try_block_failed:
  "r = Rejected m \<or> r = Response False b \<Longrightarrow>
     \<exists>err. try_block c r now = (None, Inl err)"
  by (auto simp add: try_block_def)

lemma err_message_not_ok_Unparsable: "err_message (not_ok (Unparsable m)) = m"
  by (simp add: not_ok_def)

lemma err_message_not_ok_string:
  "get_prop errorData (lit ''detail'') = Inr (JStr t) \<Longrightarrow> t \<noteq> [] \<Longrightarrow>
     err_message (not_ok (Parsed errorData)) = t"
  by (simp add: not_ok_def new_Error_def)

lemma err_message_not_ok_falsy:
  "get_prop errorData (lit ''detail'') = Inr d \<Longrightarrow> \<not> truthy d \<Longrightarrow>
     err_message (not_ok (Parsed errorData)) = generic"
  by (simp add: not_ok_def new_Error_def)

lemma error_settle:
  "error (settle c r now s) =
     (case snd (try_block c r now) of
        Inr am \<Rightarrow> error s
      | Inl err \<Rightarrow> Some (if err_message err \<noteq> [] then err_message err else generic))"
  by (simp add: settle_def Let_def split: prod.splits option.splits sum.splits)

lemma generic_not_Nil: "generic \<noteq> []"
  by (simp add: generic_def lit_def)

lemma requests_step:
  "\<exists>qs. requests (step w e) = requests w @ qs \<and>
         (\<forall>q\<in>set qs. req_conversation_id q = conversationId (st w))"
  by (cases e) (auto simp add: sendMessage_def Let_def)

lemma try_block_Some:
  "fst (try_block c r now) = Some v \<Longrightarrow>
     \<not> truthy (closed_conversationId c) \<and> truthy v \<and>
     (\<exists>data. r = Response True (Parsed data) \<and> get_prop data (lit ''conversation_id'') = Inr v)"
  by (cases r; cases "case r of Response ok b \<Rightarrow> b")
     (auto simp add: try_block_def split: if_splits sum.splits)

lemma conversationId_step:
  "conversationId (st (step w e)) \<noteq> conversationId (st w) \<Longrightarrow>
     \<exists>i r now. e = Settle i r now \<and> i < length (inflight w) \<and>
       fst (try_block (inflight w ! i) r now) = Some (conversationId (st (step w e)))"
  by (cases e)
     (auto simp add: sendMessage_def Let_def conversationId_settle split: option.splits if_splits)

lemma conversationId_step_change:
  assumes "pending_ok t0 w" and "conversationId (st (step w e)) \<noteq> conversationId (st w)"
  shows "conversationId (st w) = JNull \<and>
         (\<exists>data now. e = Settle 0 (Response True (Parsed data)) now \<and>
            get_prop data (lit ''conversation_id'') = Inr (conversationId (st (step w e))))"
proof -
  from assms(2) obtain i r now where e: "e = Settle i r now" "i < length (inflight w)"
      "fst (try_block (inflight w ! i) r now) = Some (conversationId (st (step w e)))"
    using conversationId_step by blast
  from assms(1) e(2) obtain c where c: "inflight w = [c]" "i = 0"
      "closed_conversationId c = conversationId (st w)"
      "\<not> truthy (conversationId (st w)) \<longrightarrow> conversationId (st w) = JNull"
    by (auto simp add: pending_ok_def split: list.splits)
  from e(3) c have t: "fst (try_block c r now) = Some (conversationId (st (step w e)))"
    by simp
  from try_block_Some [OF t] c e(1) show ?thesis by auto
qed

lemma conversationId_step_truthy:
  assumes "pending_ok t0 w" and "truthy (conversationId (st w))"
  shows "conversationId (st (step w e)) = conversationId (st w)"
proof (rule ccontr)
  assume "conversationId (st (step w e)) \<noteq> conversationId (st w)"
  with assms(1) have "conversationId (st w) = JNull"
    using conversationId_step_change by blast
  with assms(2) show False by simp
qed

lemma conversationId_adopt:
  assumes "pending_ok t0 w" and "inflight w \<noteq> []" and "conversationId (st w) = JNull"
    and "get_prop data (lit ''conversation_id'') = Inr v" and "truthy v"
  shows "conversationId (st (step w (Settle 0 (Response True (Parsed data)) now))) = v"
proof -
  from assms(1,2) obtain c where c: "inflight w = [c]"
      "closed_conversationId c = conversationId (st w)"
    by (auto simp add: pending_ok_def split: list.splits)
  with assms(3) have "\<not> truthy (closed_conversationId c)" by simp
  with assms(4,5) have "fst (try_block c (Response True (Parsed data)) now) = Some v"
    by (simp add: try_block_def)
  with c show ?thesis by (simp add: conversationId_settle)
qed

lemma conversationId_kept:
  "truthy (conversationId (st (run t0 evs))) \<Longrightarrow>
     conversationId (st (run t0 (evs @ evs'))) = conversationId (st (run t0 evs)) \<and>
     (\<exists>qs. requests (run t0 (evs @ evs')) = requests (run t0 evs) @ qs \<and>
        (\<forall>q\<in>set qs. req_conversation_id q = conversationId (st (run t0 evs))))"
proof (induction evs' rule: rev_induct)
  case Nil
  then show ?case by simp
next
  case (snoc e evs')
  let ?w = "run t0 (evs @ evs')"
  from snoc obtain qs where k: "conversationId (st ?w) = conversationId (st (run t0 evs))"
    and q: "requests ?w = requests (run t0 evs) @ qs"
      "\<forall>q\<in>set qs. req_conversation_id q = conversationId (st (run t0 evs))"
    by blast
  have s: "run t0 (evs @ evs' @ [e]) = step ?w e"
    using run_snoc [of t0 "evs @ evs'" e] by simp
  have p: "pending_ok t0 ?w" by (rule pending_ok_run)
  from snoc.prems k have "truthy (conversationId (st ?w))" by simp
  with p have k': "conversationId (st (step ?w e)) = conversationId (st ?w)"
    by (rule conversationId_step_truthy)
  obtain qs' where q': "requests (step ?w e) = requests ?w @ qs'"
      "\<forall>q\<in>set qs'. req_conversation_id q = conversationId (st ?w)"
    using requests_step by blast
  from q q' k have "requests (step ?w e) = requests (run t0 evs) @ (qs @ qs') \<and>
      (\<forall>q\<in>set (qs @ qs'). req_conversation_id q = conversationId (st (run t0 evs)))"
    by auto
  with k k' s show ?case by metis
qed

text \<open>Every \<^verbatim>\<open>ok\<close> response whose body is an object takes the \<^verbatim>\<open>try\<close> block to its end, unless
  its \<^verbatim>\<open>timestamp\<close> is a value that \<^verbatim>\<open>new Date\<close> cannot convert.\<close>

lemma ok_object_body_succeeds:
  assumes "new_Date (case own ps (lit ''timestamp'') of None \<Rightarrow> JUndefined | Some v \<Rightarrow> v) = Inr d"
  shows "\<exists>am. snd (try_block c (Response True (Parsed (JObj ps))) now) = Inr am"
  using assms by (simp add: try_block_def assistantMessage_def bind_def)

section \<open>Rendering succeeds on well-formed payloads\<close>

lemma render_cell_scalar: "scalar v \<Longrightarrow> render_cell v = Inr (shown_scalar v)"
  by (cases v) (simp_all add: render_cell_def bind_def)

lemma mapE_render_cell: "(\<forall>v\<in>set vs. scalar v) \<Longrightarrow> mapE render_cell vs = Inr (map shown_scalar vs)"
  by (induction vs) (simp_all add: bind_def render_cell_scalar)

lemma mapE_render_row:
  "(\<forall>vs\<in>set vss. \<forall>v\<in>set vs. scalar v) \<Longrightarrow>
     mapE render_row (map JArr vss) = Inr (map (map shown_scalar) vss)"
  by (induction vss) (simp_all add: bind_def mapE_render_cell)

lemma mapE_react_child_strings: "mapE react_child (map JStr names) = Inr names"
  by (induction names) (simp_all add: bind_def)

lemma get_prop_truthy: "get_prop res k = Inr (JArr xs) \<Longrightarrow> truthy res"
  by (cases res) simp_all

section \<open>The example session, evaluated\<close>

lemma ex_inflight: "inflight (run (lit ''0'') ex_events) = [ex_call]"
  by (simp add: run_def mount_def initial_def sendMessage_def trim_def lit_def isWhiteSpace_def
        Let_def ex_events_def ex_question_def ex_call_def)


lemma ex_cid_null: "conversationId (st (run (lit ''0'') ex_events)) = JNull"
  by (simp add: run_def mount_def initial_def sendMessage_def Let_def ex_events_def)

lemma ex_reply_cid: "get_prop ex_reply (lit ''conversation_id'') = Inr (JStr (lit ''abc123''))"
  by (simp add: own_def lit_def ex_reply_def)

lemma ex_failure_detail: "get_prop ex_failure (lit ''detail'') = Inr (JStr (lit ''token expired''))"
  by (simp add: own_def ex_failure_def)

section \<open>The claims\<close>

subsection \<open>The life of a submitted message\<close>

text \<open>Claim C1. When the input is not empty after trimming and no exchange is pending,
  \<^verbatim>\<open>sendMessage\<close> appends exactly one message to the list, from the user and with status
  \<^verbatim>\<open>sending\<close>, and suspends one call for it. However the fetch of that call settles, the list
  then is the old list, that message with status \<^verbatim>\<open>sent\<close> or \<^verbatim>\<open>error\<close>, and after it nothing
  but assistant messages. No step of the component (input, submit, settled fetch) gives the
  status \<^verbatim>\<open>sending\<close> to a position of the list that did not have it.\<close>

theorem submit_appends_one_user_message_that_settles:
  assumes "trim (input (st w)) \<noteq> []" and "\<not> isLoading (st w)"
  shows "(\<exists>um c. sender um = User \<and> status um = Some Sending \<and>
            messages (st (sendMessage now_id now_ts w)) = messages (st w) @ [um] \<and>
            inflight (sendMessage now_id now_ts w) = inflight w @ [c] \<and>
            userMessage c = um \<and>
            (\<forall>r now. \<exists>t rest. (t = Sent \<or> t = Error) \<and>
               list_all (\<lambda>m. sender m = Assistant) rest \<and>
               messages (settle c r now (st (sendMessage now_id now_ts w)))
                 = messages (st w) @ [um\<lparr>status := Some t\<rparr>] @ rest)) \<and>
         (\<forall>w' e i. i < length (messages (st w')) \<and>
                    status (messages (st w') ! i) \<noteq> Some Sending \<longrightarrow>
                    i < length (messages (st (step w' e))) \<and>
                    status (messages (st (step w' e)) ! i) \<noteq> Some Sending)"
proof -
  define um where "um = \<lparr>msg_id = JStr now_id, content = JStr (trim (input (st w))),
                         sender = User, timestamp = DateNow now_ts, status = Some Sending,
                         sql = JUndefined, results = JUndefined\<rparr>"
  define c where "c = \<lparr>userMessage = um, closed_conversationId = conversationId (st w)\<rparr>"
  have m: "messages (st (sendMessage now_id now_ts w)) = messages (st w) @ [um]"
    using assms by (simp add: sendMessage_def Let_def um_def)
  have i: "inflight (sendMessage now_id now_ts w) = inflight w @ [c]"
    using assms by (simp add: sendMessage_def Let_def um_def c_def)
  have u: "sender um = User" "status um = Some Sending" "userMessage c = um"
    by (simp_all add: um_def c_def)
  have s: "\<exists>t rest. (t = Sent \<or> t = Error) \<and> list_all (\<lambda>m. sender m = Assistant) rest \<and>
             messages (settle c r now (st (sendMessage now_id now_ts w)))
               = messages (st w) @ [um\<lparr>status := Some t\<rparr>] @ rest" for r now
  proof (cases "snd (try_block c r now)")
    case (Inl err)
    then have "messages (settle c r now (st (sendMessage now_id now_ts w)))
                 = messages (st w) @ [um\<lparr>status := Some Error\<rparr>] @ []"
      by (simp add: messages_settle m u)
    moreover have "list_all (\<lambda>m. sender m = Assistant) ([] :: message list)"
      by simp
    ultimately show ?thesis by blast
  next
    case (Inr am)
    then have "messages (settle c r now (st (sendMessage now_id now_ts w)))
                 = messages (st w) @ [um\<lparr>status := Some Sent\<rparr>] @ [am]"
      by (simp add: messages_settle m u)
    moreover have "list_all (\<lambda>m. sender m = Assistant) [am]"
      using Inr by (simp add: try_block_assistant)
    ultimately show ?thesis by blast
  qed
  have n: "\<forall>w' e i. i < length (messages (st w')) \<and>
                    status (messages (st w') ! i) \<noteq> Some Sending \<longrightarrow>
                    i < length (messages (st (step w' e))) \<and>
                    status (messages (st (step w' e)) ! i) \<noteq> Some Sending"
    using status_step_nth by blast
  from m i u s n show ?thesis by blast
qed

theorem submit_appends_one_user_message_that_settles_witness:
  "trim (input (st (run (lit ''0'') ex_typed))) \<noteq> [] \<and>
   \<not> isLoading (st (run (lit ''0'') ex_typed)) \<and>
   (\<exists>um c. sender um = User \<and> status um = Some Sending \<and>
      messages (st (sendMessage (lit ''5'') (lit ''6'') (run (lit ''0'') ex_typed)))
        = messages (st (run (lit ''0'') ex_typed)) @ [um] \<and>
      inflight (sendMessage (lit ''5'') (lit ''6'') (run (lit ''0'') ex_typed))
        = inflight (run (lit ''0'') ex_typed) @ [c] \<and>
      userMessage c = um \<and>
      (\<forall>r now. \<exists>t rest. (t = Sent \<or> t = Error) \<and>
         list_all (\<lambda>m. sender m = Assistant) rest \<and>
         messages (settle c r now (st (sendMessage (lit ''5'') (lit ''6'') (run (lit ''0'') ex_typed))))
           = messages (st (run (lit ''0'') ex_typed)) @ [um\<lparr>status := Some t\<rparr>] @ rest))"
proof -
  have h1: "trim (input (st (run (lit ''0'') ex_typed))) \<noteq> []"
    by (simp add: run_def mount_def initial_def trim_def lit_def isWhiteSpace_def ex_typed_def)
  have h2: "\<not> isLoading (st (run (lit ''0'') ex_typed))"
    by (simp add: run_def mount_def initial_def ex_typed_def)
  from submit_appends_one_user_message_that_settles [OF h1 h2, of "lit ''5''" "lit ''6''"] h1 h2
  show ?thesis by blast
qed

subsection \<open>A successful exchange\<close>



subsection \<open>A failed exchange\<close>

text \<open>Claim C3. When an exchange is pending in a run and its fetch is rejected (a transport
  error) or resolves to a response that is not \<^verbatim>\<open>ok\<close>, the list after is the list before with
  the pending user message given status \<^verbatim>\<open>error\<close>: nothing is appended. The conversation
  identifier is the one the session had before.\<close>

theorem failed_exchange_reconciliation:
  assumes "inflight (run t0 evs) = [c]" and "r = Rejected m \<or> r = Response False b"
  shows "\<exists>before pending.
           messages (st (run t0 evs)) = before @ [pending] \<and>
           pending = userMessage c \<and> sender pending = User \<and> status pending = Some Sending \<and>
           messages (st (step (run t0 evs) (Settle 0 r now)))
             = before @ [pending\<lparr>status := Some Error\<rparr>] \<and>
           conversationId (st (step (run t0 evs) (Settle 0 r now)))
             = conversationId (st (run t0 evs))"
proof -
  from assms(2) obtain err where e: "try_block c r now = (None, Inl err)"
    using try_block_failed by blast
  define before where "before = butlast (messages (st (run t0 evs)))"
  from assms(1) have p: "messages (st (run t0 evs)) = before @ [userMessage c]"
    "sender (userMessage c) = User" "status (userMessage c) = Some Sending"
    unfolding before_def using pending_last by blast+
  have m: "messages (st (step (run t0 evs) (Settle 0 r now)))
          = before @ [(userMessage c)\<lparr>status := Some Error\<rparr>]"
    using assms(1) e by (simp add: messages_settle before_def)
  have i: "conversationId (st (step (run t0 evs) (Settle 0 r now)))
             = conversationId (st (run t0 evs))"
    using assms(1) e by (simp add: conversationId_settle)
  from p m i show ?thesis by blast
qed

theorem failed_exchange_reconciliation_witness:
  "inflight (run (lit ''0'') ex_events) = [ex_call] \<and>
   (Response False (Parsed ex_failure) = Rejected []
    \<or> Response False (Parsed ex_failure) = Response False (Parsed ex_failure)) \<and>
   (\<exists>before pending.
      messages (st (run (lit ''0'') ex_events)) = before @ [pending] \<and>
      pending = userMessage ex_call \<and> sender pending = User \<and> status pending = Some Sending \<and>
      messages (st (step (run (lit ''0'') ex_events)
                      (Settle 0 (Response False (Parsed ex_failure)) (lit ''9''))))
        = before @ [pending\<lparr>status := Some Error\<rparr>] \<and>
      conversationId (st (step (run (lit ''0'') ex_events)
                            (Settle 0 (Response False (Parsed ex_failure)) (lit ''9''))))
        = conversationId (st (run (lit ''0'') ex_events)))"
proof -
  have h1: "inflight (run (lit ''0'') ex_events) = [ex_call]"
    by (rule ex_inflight)
  have h2: "Response False (Parsed ex_failure) = Rejected []
    \<or> Response False (Parsed ex_failure) = Response False (Parsed ex_failure)"
    by simp
  from failed_exchange_reconciliation [OF h1 h2] h1 h2 show ?thesis
    by blast
qed

subsection \<open>The session error\<close>

text \<open>Claim C4, as the component implements it. After a failed exchange (a transport error or
  a response that is not \<^verbatim>\<open>ok\<close>) the session error is the message of the error that left the
  \<^verbatim>\<open>try\<close> block, or the generic message when that message is empty. That message is: for a
  transport error, the message of the rejection; for a body that is not JSON, the message of
  the parse error; for a body on which reading \<^verbatim>\<open>detail\<close> throws (the body \<^verbatim>\<open>null\<close>), the
  message of that TypeError; for any other parsed body, the generic message when \<^verbatim>\<open>detail\<close>
  is absent or falsy, and otherwise the string conversion of \<^verbatim>\<open>detail\<close> (\<^verbatim>\<open>detail\<close> itself when
  it is a string) or, when the conversion throws, the message of that error. In particular
  the body \<^verbatim>\<open>{"detail": "token expired"}\<close> gives exactly \<^verbatim>\<open>token expired\<close>.\<close>

theorem failed_exchange_error_message:
  "(r = Rejected m \<or> r = Response False b \<longrightarrow>
      (\<exists>err. snd (try_block c r now) = Inl err \<and>
         error (settle c r now s)
           = Some (if err_message err \<noteq> [] then err_message err else generic))) \<and>
   (r = Rejected m \<or> r = Response False (Unparsable m) \<longrightarrow>
      error (settle c r now s) = Some (if m \<noteq> [] then m else generic)) \<and>
   (r = Response False (Parsed errorData) \<longrightarrow>
      (get_prop errorData (lit ''detail'') = Inl e \<longrightarrow>
         error (settle c r now s)
           = Some (if err_message e \<noteq> [] then err_message e else generic)) \<and>
      (get_prop errorData (lit ''detail'') = Inr d \<and> \<not> truthy d \<longrightarrow>
         error (settle c r now s) = Some generic) \<and>
      (get_prop errorData (lit ''detail'') = Inr d \<and> truthy d \<and> ToString d = Inr t \<longrightarrow>
         error (settle c r now s) = Some (if t \<noteq> [] then t else generic)) \<and>
      (get_prop errorData (lit ''detail'') = Inr d \<and> truthy d \<and> ToString d = Inl e \<longrightarrow>
         error (settle c r now s)
           = Some (if err_message e \<noteq> [] then err_message e else generic)) \<and>
      (get_prop errorData (lit ''detail'') = Inr (JStr t) \<and> t \<noteq> [] \<longrightarrow>
         error (settle c r now s) = Some t)) \<and>
   error (settle c (Response False (Parsed JNull)) now s)
     = Some (cannot_read ''null'' (lit ''detail'')) \<and>
   error (settle c (Response False (Parsed (JObj [(lit ''detail'', JStr (lit ''token expired''))])))
            now s) = Some (lit ''token expired'')"
proof -
  have z: "r = Rejected m \<or> r = Response False b \<longrightarrow>
      (\<exists>err. snd (try_block c r now) = Inl err \<and>
         error (settle c r now s)
           = Some (if err_message err \<noteq> [] then err_message err else generic))"
    by (auto simp add: error_settle try_block_def)
  have a: "r = Rejected m \<or> r = Response False (Unparsable m) \<longrightarrow>
      error (settle c r now s) = Some (if m \<noteq> [] then m else generic)"
    by (auto simp add: error_settle try_block_def err_message_not_ok_Unparsable)
  have b1: "r = Response False (Parsed errorData) \<longrightarrow>
      get_prop errorData (lit ''detail'') = Inl e \<longrightarrow>
         error (settle c r now s)
           = Some (if err_message e \<noteq> [] then err_message e else generic)"
    by (simp add: error_settle try_block_def not_ok_def)
  have b2: "r = Response False (Parsed errorData) \<longrightarrow>
      get_prop errorData (lit ''detail'') = Inr d \<and> \<not> truthy d \<longrightarrow>
         error (settle c r now s) = Some generic"
    by (auto simp add: error_settle try_block_def err_message_not_ok_falsy generic_not_Nil)
  have b3: "r = Response False (Parsed errorData) \<longrightarrow>
      get_prop errorData (lit ''detail'') = Inr d \<and> truthy d \<and> ToString d = Inr t \<longrightarrow>
         error (settle c r now s) = Some (if t \<noteq> [] then t else generic)"
    by (simp add: error_settle try_block_def not_ok_def new_Error_def)
  have b4: "r = Response False (Parsed errorData) \<longrightarrow>
      get_prop errorData (lit ''detail'') = Inr d \<and> truthy d \<and> ToString d = Inl e \<longrightarrow>
         error (settle c r now s)
           = Some (if err_message e \<noteq> [] then err_message e else generic)"
    by (simp add: error_settle try_block_def not_ok_def new_Error_def)
  have b5: "r = Response False (Parsed errorData) \<longrightarrow>
      get_prop errorData (lit ''detail'') = Inr (JStr t) \<and> t \<noteq> [] \<longrightarrow>
         error (settle c r now s) = Some t"
    by (auto simp add: error_settle try_block_def err_message_not_ok_string)
  have n: "error (settle c (Response False (Parsed JNull)) now s)
     = Some (cannot_read ''null'' (lit ''detail''))"
    by (simp add: error_settle try_block_def not_ok_def cannot_read_def lit_def)
  have g: "get_prop (JObj [(lit ''detail'', JStr (lit ''token expired''))]) (lit ''detail'')
             = Inr (JStr (lit ''token expired''))"
    by (simp add: own_def)
  have k: "lit ''token expired'' \<noteq> []"
    by (simp add: lit_def)
  have d: "error (settle c (Response False (Parsed (JObj [(lit ''detail'', JStr (lit ''token expired''))])))
            now s) = Some (lit ''token expired'')"
    using err_message_not_ok_string [OF g k] k
    by (simp add: error_settle try_block_def)
  from z a b1 b2 b3 b4 b5 n d show ?thesis by blast
qed

theorem failed_exchange_error_message_witness:
  "(\<exists>err. snd (try_block ex_call (Response False (Parsed ex_failure)) (lit ''9'')) = Inl err \<and>
      error (settle ex_call (Response False (Parsed ex_failure)) (lit ''9'')
               (st (run (lit ''0'') ex_events)))
        = Some (if err_message err \<noteq> [] then err_message err else generic)) \<and>
   error (settle ex_call (Rejected (lit ''Failed to fetch'')) (lit ''9'')
            (st (run (lit ''0'') ex_events))) = Some (lit ''Failed to fetch'') \<and>
   error (settle ex_call (Response False (Unparsable (lit ''Unexpected end of JSON input'')))
            (lit ''9'') (st (run (lit ''0'') ex_events)))
     = Some (lit ''Unexpected end of JSON input'') \<and>
   get_prop JNull (lit ''detail'') = Inl (Thrown (cannot_read ''null'' (lit ''detail''))) \<and>
   error (settle ex_call (Response False (Parsed JNull)) (lit ''9'')
            (st (run (lit ''0'') ex_events))) = Some (cannot_read ''null'' (lit ''detail'')) \<and>
   get_prop (JObj []) (lit ''detail'') = Inr JUndefined \<and>
   error (settle ex_call (Response False (Parsed (JObj []))) (lit ''9'')
            (st (run (lit ''0'') ex_events))) = Some generic \<and>
   get_prop ex_failure (lit ''detail'') = Inr (JStr (lit ''token expired'')) \<and>
   error (settle ex_call (Response False (Parsed ex_failure)) (lit ''9'')
            (st (run (lit ''0'') ex_events))) = Some (lit ''token expired'') \<and>
   get_prop ex_invalid (lit ''detail'') = Inr (JArr [JObj [(lit ''msg'', JStr (lit ''field required''))]]) \<and>
   ToString (JArr [JObj [(lit ''msg'', JStr (lit ''field required''))]]) = Inr (lit ''[object Object]'') \<and>
   error (settle ex_call (Response False (Parsed ex_invalid)) (lit ''9'')
            (st (run (lit ''0'') ex_events))) = Some (lit ''[object Object]'') \<and>
   get_prop ex_shadowed (lit ''detail'') = Inr (JObj [(lit ''toString'', JNum (lit ''1''))]) \<and>
   ToString (JObj [(lit ''toString'', JNum (lit ''1''))]) = Inl (Thrown cannot_convert) \<and>
   error (settle ex_call (Response False (Parsed ex_shadowed)) (lit ''9'')
            (st (run (lit ''0'') ex_events))) = Some cannot_convert"
proof -
  let ?s = "st (run (lit ''0'') ex_events)"
  have n1: "lit ''Failed to fetch'' \<noteq> []" and n2: "lit ''token expired'' \<noteq> []"
    and n3: "lit ''Unexpected end of JSON input'' \<noteq> []" and n4: "lit ''[object Object]'' \<noteq> []"
    and n5: "cannot_convert \<noteq> []" and n6: "cannot_read ''null'' (lit ''detail'') \<noteq> []"
    by (simp_all add: lit_def cannot_convert_def cannot_read_def)
  have g0: "get_prop JNull (lit ''detail'') = Inl (Thrown (cannot_read ''null'' (lit ''detail'')))"
    by simp
  have g1: "get_prop ex_failure (lit ''detail'') = Inr (JStr (lit ''token expired''))"
    by (rule ex_failure_detail)
  have g2: "get_prop (JObj []) (lit ''detail'') = Inr JUndefined"
    by (simp add: own_def)
  have g3: "get_prop ex_invalid (lit ''detail'')
              = Inr (JArr [JObj [(lit ''msg'', JStr (lit ''field required''))]])"
    by (simp add: own_def ex_invalid_def)
  have t3: "ToString (JArr [JObj [(lit ''msg'', JStr (lit ''field required''))]])
              = Inr (lit ''[object Object]'')"
    by (simp add: own_def lit_def)
  have g4: "get_prop ex_shadowed (lit ''detail'') = Inr (JObj [(lit ''toString'', JNum (lit ''1''))])"
    by (simp add: own_def ex_shadowed_def)
  have t4: "ToString (JObj [(lit ''toString'', JNum (lit ''1''))]) = Inl (Thrown cannot_convert)"
    by (simp add: own_def)
  have z: "\<exists>err. snd (try_block ex_call (Response False (Parsed ex_failure)) (lit ''9'')) = Inl err \<and>
      error (settle ex_call (Response False (Parsed ex_failure)) (lit ''9'') ?s)
        = Some (if err_message err \<noteq> [] then err_message err else generic)"
    using failed_exchange_error_message
      [where r = "Response False (Parsed ex_failure)" and b = "Parsed ex_failure"
         and c = ex_call and now = "lit ''9''" and s = ?s]
    by simp
  have a: "error (settle ex_call (Rejected (lit ''Failed to fetch'')) (lit ''9'') ?s)
             = Some (lit ''Failed to fetch'')"
    using n1 failed_exchange_error_message
      [where r = "Rejected (lit ''Failed to fetch'')" and m = "lit ''Failed to fetch''"
         and c = ex_call and now = "lit ''9''" and s = ?s]
    by simp
  have b: "error (settle ex_call (Response False (Unparsable (lit ''Unexpected end of JSON input'')))
            (lit ''9'') ?s) = Some (lit ''Unexpected end of JSON input'')"
    using n3 failed_exchange_error_message
      [where r = "Response False (Unparsable (lit ''Unexpected end of JSON input''))"
         and m = "lit ''Unexpected end of JSON input''"
         and c = ex_call and now = "lit ''9''" and s = ?s]
    by simp
  have c: "error (settle ex_call (Response False (Parsed JNull)) (lit ''9'') ?s)
             = Some (cannot_read ''null'' (lit ''detail''))"
    using n6 g0 failed_exchange_error_message
      [where r = "Response False (Parsed JNull)" and errorData = JNull
         and e = "Thrown (cannot_read ''null'' (lit ''detail''))"
         and c = ex_call and now = "lit ''9''" and s = ?s]
    by simp
  have d: "error (settle ex_call (Response False (Parsed (JObj []))) (lit ''9'') ?s) = Some generic"
    using g2 failed_exchange_error_message
      [where r = "Response False (Parsed (JObj []))" and errorData = "JObj []" and d = JUndefined
         and c = ex_call and now = "lit ''9''" and s = ?s]
    by simp
  have e: "error (settle ex_call (Response False (Parsed ex_failure)) (lit ''9'') ?s)
             = Some (lit ''token expired'')"
    using n2 g1 failed_exchange_error_message
      [where r = "Response False (Parsed ex_failure)" and errorData = ex_failure
         and t = "lit ''token expired''" and c = ex_call and now = "lit ''9''" and s = ?s]
    by simp
  have f: "error (settle ex_call (Response False (Parsed ex_invalid)) (lit ''9'') ?s)
             = Some (lit ''[object Object]'')"
    using n4 g3 t3 failed_exchange_error_message
      [where r = "Response False (Parsed ex_invalid)" and errorData = ex_invalid
         and d = "JArr [JObj [(lit ''msg'', JStr (lit ''field required''))]]"
         and t = "lit ''[object Object]''" and c = ex_call and now = "lit ''9''" and s = ?s]
    by simp
  have h: "error (settle ex_call (Response False (Parsed ex_shadowed)) (lit ''9'') ?s)
             = Some cannot_convert"
    using n5 g4 t4 failed_exchange_error_message
      [where r = "Response False (Parsed ex_shadowed)" and errorData = ex_shadowed
         and d = "JObj [(lit ''toString'', JNum (lit ''1''))]"
         and e = "Thrown cannot_convert" and c = ex_call and now = "lit ''9''" and s = ?s]
    by simp
  from z a b c d e f h g0 g1 g2 g3 g4 t3 t4 show ?thesis by simp
qed

text \<open>Claim C4 as it is worded fails for a transport error: the fetch is rejected with the
  browser's message, there is no response and so no \<^verbatim>\<open>detail\<close>, and the session error is the
  browser's message, not the generic one. It fails in the same way for a response that is
  not \<^verbatim>\<open>ok\<close> and whose body is not JSON (an empty body, say): \<^verbatim>\<open>response.json()\<close> rejects and
  the session error is the message of the SyntaxError.\<close>

theorem transport_error_message_counterexample:
  "error (settle ex_call (Rejected (lit ''Failed to fetch'')) (lit ''9'')
            (st (run (lit ''0'') ex_events))) = Some (lit ''Failed to fetch'') \<and>
   claimed_error (Rejected (lit ''Failed to fetch'')) = lit ''Failed to send message'' \<and>
   lit ''Failed to fetch'' \<noteq> lit ''Failed to send message'' \<and>
   error (settle ex_call (Response False (Unparsable (lit ''Unexpected end of JSON input'')))
            (lit ''9'') (st (run (lit ''0'') ex_events)))
     = Some (lit ''Unexpected end of JSON input'') \<and>
   claimed_error (Response False (Unparsable (lit ''Unexpected end of JSON input'')))
     = lit ''Failed to send message'' \<and>
   lit ''Unexpected end of JSON input'' \<noteq> lit ''Failed to send message''"
  by (simp add: error_settle try_block_def not_ok_def claimed_error_def generic_def lit_def)

subsection \<open>The conversation identifier\<close>

text \<open>Claim C5. The conversation identifier of a mounted component is \<^verbatim>\<open>null\<close>, and in every
  run it is \<^verbatim>\<open>null\<close> or truthy. A step changes it only from \<^verbatim>\<open>null\<close>, and only when the fetch
  of the pending call resolves to an \<^verbatim>\<open>ok\<close> response with a parsed body, to the
  \<^verbatim>\<open>conversation_id\<close> of that body; and such a response with a truthy \<^verbatim>\<open>conversation_id\<close>,
  settling the pending call of a session without identifier, sets it. Once the identifier is
  truthy, every continuation of the run leaves it as it is, and every request sent in the
  continuation carries it.\<close>

theorem conversationId_adopted_once_and_reused:
  "conversationId (st (run t0 [])) = JNull \<and>
   (\<not> truthy (conversationId (st (run t0 evs))) \<longrightarrow> conversationId (st (run t0 evs)) = JNull) \<and>
   (conversationId (st (run t0 (evs @ [e]))) \<noteq> conversationId (st (run t0 evs)) \<longrightarrow>
      conversationId (st (run t0 evs)) = JNull \<and>
      (\<exists>data now. e = Settle 0 (Response True (Parsed data)) now \<and>
         get_prop data (lit ''conversation_id'')
           = Inr (conversationId (st (run t0 (evs @ [e])))))) \<and>
   (inflight (run t0 evs) \<noteq> [] \<and> conversationId (st (run t0 evs)) = JNull \<and>
    get_prop data (lit ''conversation_id'') = Inr v \<and> truthy v \<longrightarrow>
      conversationId (st (run t0 (evs @ [Settle 0 (Response True (Parsed data)) now]))) = v) \<and>
   (truthy (conversationId (st (run t0 evs))) \<longrightarrow>
      conversationId (st (run t0 (evs @ evs'))) = conversationId (st (run t0 evs)) \<and>
      (\<forall>q\<in>set (drop (length (requests (run t0 evs))) (requests (run t0 (evs @ evs')))).
         req_conversation_id q = conversationId (st (run t0 evs))))"
proof -
  have p: "pending_ok t0 (run t0 evs)" by (rule pending_ok_run)
  have a: "conversationId (st (run t0 [])) = JNull"
    by (simp add: run_def mount_def initial_def)
  have b: "\<not> truthy (conversationId (st (run t0 evs))) \<longrightarrow> conversationId (st (run t0 evs)) = JNull"
    using p by (simp add: pending_ok_def)
  have c: "conversationId (st (run t0 (evs @ [e]))) \<noteq> conversationId (st (run t0 evs)) \<longrightarrow>
      conversationId (st (run t0 evs)) = JNull \<and>
      (\<exists>data now. e = Settle 0 (Response True (Parsed data)) now \<and>
         get_prop data (lit ''conversation_id'')
           = Inr (conversationId (st (run t0 (evs @ [e])))))"
    using conversationId_step_change [OF p, of e] by (simp add: run_snoc)
  have d: "inflight (run t0 evs) \<noteq> [] \<and> conversationId (st (run t0 evs)) = JNull \<and>
    get_prop data (lit ''conversation_id'') = Inr v \<and> truthy v \<longrightarrow>
      conversationId (st (run t0 (evs @ [Settle 0 (Response True (Parsed data)) now]))) = v"
    using conversationId_adopt [OF p, of data v now] by (simp add: run_snoc)
  have e: "truthy (conversationId (st (run t0 evs))) \<longrightarrow>
      conversationId (st (run t0 (evs @ evs'))) = conversationId (st (run t0 evs)) \<and>
      (\<forall>q\<in>set (drop (length (requests (run t0 evs))) (requests (run t0 (evs @ evs')))).
         req_conversation_id q = conversationId (st (run t0 evs)))"
    using conversationId_kept [of t0 evs evs'] by auto
  from a b c d e show ?thesis by blast
qed

theorem conversationId_adopted_once_and_reused_witness:
  "conversationId (st (run (lit ''0'') ex_events)) = JNull \<and>
   inflight (run (lit ''0'') ex_events) \<noteq> [] \<and>
   get_prop ex_reply (lit ''conversation_id'') = Inr (JStr (lit ''abc123'')) \<and>
   truthy (JStr (lit ''abc123'')) \<and>
   conversationId (st (run (lit ''0'') (ex_events @ [ex_success]))) = JStr (lit ''abc123'') \<and>
   conversationId (st (run (lit ''0'') (ex_events @ [ex_success])))
     \<noteq> conversationId (st (run (lit ''0'') ex_events)) \<and>
   conversationId (st (run (lit ''0'') ((ex_events @ [ex_success]) @ ex_followup)))
     = JStr (lit ''abc123'') \<and>
   length (drop (length (requests (run (lit ''0'') (ex_events @ [ex_success]))))
             (requests (run (lit ''0'') ((ex_events @ [ex_success]) @ ex_followup)))) = 2 \<and>
   list_all (\<lambda>q. req_conversation_id q = JStr (lit ''abc123''))
     (drop (length (requests (run (lit ''0'') (ex_events @ [ex_success]))))
        (requests (run (lit ''0'') ((ex_events @ [ex_success]) @ ex_followup))))"
proof -
  have h1: "conversationId (st (run (lit ''0'') ex_events)) = JNull"
    by (rule ex_cid_null)
  have h2: "inflight (run (lit ''0'') ex_events) \<noteq> []"
    by (simp add: ex_inflight)
  have h3: "get_prop ex_reply (lit ''conversation_id'') = Inr (JStr (lit ''abc123''))"
    by (rule ex_reply_cid)
  have h4: "truthy (JStr (lit ''abc123''))"
    by (simp add: lit_def)
  have a: "conversationId (st (run (lit ''0'') (ex_events @ [ex_success]))) = JStr (lit ''abc123'')"
    using h1 h2 h3 h4 conversationId_adopted_once_and_reused
      [of "lit ''0''" ex_events ex_success ex_reply "JStr (lit ''abc123'')" "lit ''9''" "[]"]
    unfolding ex_success_def by blast
  have b: "conversationId (st (run (lit ''0'') (ex_events @ [ex_success])))
     \<noteq> conversationId (st (run (lit ''0'') ex_events))"
    using a h1 by simp
  have t: "truthy (conversationId (st (run (lit ''0'') (ex_events @ [ex_success]))))"
    using a h4 by simp
  have c: "conversationId (st (run (lit ''0'') ((ex_events @ [ex_success]) @ ex_followup)))
             = JStr (lit ''abc123'') \<and>
           list_all (\<lambda>q. req_conversation_id q = JStr (lit ''abc123''))
             (drop (length (requests (run (lit ''0'') (ex_events @ [ex_success]))))
                (requests (run (lit ''0'') ((ex_events @ [ex_success]) @ ex_followup))))"
    using t a conversationId_adopted_once_and_reused
      [of "lit ''0''" "ex_events @ [ex_success]" ex_success ex_reply "JStr (lit ''abc123'')"
          "lit ''9''" ex_followup]
    by (simp add: list_all_iff)
  have l1: "length (requests (run (lit ''0'') (ex_events @ [ex_success]))) = 1"
    by (simp add: run_def mount_def initial_def sendMessage_def trim_def lit_def isWhiteSpace_def
          Let_def ex_events_def ex_success_def)
  have l2: "length (requests (run (lit ''0'') ((ex_events @ [ex_success]) @ ex_followup))) = 3"
    by (simp add: run_def mount_def initial_def sendMessage_def trim_def lit_def isWhiteSpace_def
          Let_def ex_events_def ex_success_def ex_followup_def isLoading_settle)
  have d: "length (drop (length (requests (run (lit ''0'') (ex_events @ [ex_success]))))
             (requests (run (lit ''0'') ((ex_events @ [ex_success]) @ ex_followup)))) = 2"
    using l1 l2 by simp
  from h1 h2 h3 h4 a b c d show ?thesis by blast
qed

subsection \<open>One exchange at a time\<close>

text \<open>Claim C6. While \<open>isLoading\<close> is set, \<^verbatim>\<open>sendMessage\<close> leaves the world as it was (no message,
  no request, no state change). In every run a suspended call implies \<open>isLoading\<close>, so a further
  submit is then without effect, and there is never more than one suspended call.\<close>

theorem sendMessage_noop_while_pending:
  "(isLoading (st w) \<longrightarrow> sendMessage now_id now_ts w = w) \<and>
   (inflight (run t0 evs) \<noteq> [] \<longrightarrow>
      isLoading (st (run t0 evs)) \<and>
      step (run t0 evs) (Submit now_id now_ts) = run t0 evs) \<and>
   length (inflight (run t0 evs)) \<le> 1"
proof -
  have a: "isLoading (st w) \<longrightarrow> sendMessage now_id now_ts w = w"
    by (simp add: sendMessage_def)
  have p: "pending_ok t0 (run t0 evs)"
    by (rule pending_ok_run)
  have b: "inflight (run t0 evs) \<noteq> [] \<longrightarrow> isLoading (st (run t0 evs))"
    using p by (auto simp add: pending_ok_def split: list.splits)
  have c: "length (inflight (run t0 evs)) \<le> 1"
    using p by (auto simp add: pending_ok_def split: list.splits)
  have d: "inflight (run t0 evs) \<noteq> [] \<longrightarrow> step (run t0 evs) (Submit now_id now_ts) = run t0 evs"
    using b by (simp add: sendMessage_def)
  from a b c d show ?thesis by blast
qed

theorem sendMessage_noop_while_pending_witness:
  "inflight (run (lit ''0'') [SetInput (lit ''hi''), Submit (lit ''5'') (lit ''6'')]) \<noteq> [] \<and>
   isLoading (st (run (lit ''0'') [SetInput (lit ''hi''), Submit (lit ''5'') (lit ''6'')])) \<and>
   sendMessage (lit ''8'') (lit ''9'') (run (lit ''0'') [SetInput (lit ''hi''), Submit (lit ''5'') (lit ''6'')])
     = run (lit ''0'') [SetInput (lit ''hi''), Submit (lit ''5'') (lit ''6'')] \<and>
   step (run (lit ''0'') [SetInput (lit ''hi''), Submit (lit ''5'') (lit ''6'')]) (Submit (lit ''8'') (lit ''9''))
     = run (lit ''0'') [SetInput (lit ''hi''), Submit (lit ''5'') (lit ''6'')]"
proof -
  have h: "inflight (run (lit ''0'') [SetInput (lit ''hi''), Submit (lit ''5'') (lit ''6'')]) \<noteq> []"
    by (simp add: run_def mount_def initial_def sendMessage_def trim_def lit_def isWhiteSpace_def Let_def)
  show ?thesis
    using h sendMessage_noop_while_pending
      [of "run (lit ''0'') [SetInput (lit ''hi''), Submit (lit ''5'') (lit ''6'')]"
          "lit ''8''" "lit ''9''"
          "lit ''0''" "[SetInput (lit ''hi''), Submit (lit ''5'') (lit ''6'')]"]
    by blast
qed

subsection \<open>Blank input\<close>

text \<open>Claim C7. When the input is empty or consists of whitespace only, \<^verbatim>\<open>sendMessage\<close> returns at
  its guard: the world is left as it was, so the message list and every other state cell are
  unchanged, no call is suspended and no request is sent.\<close>

theorem sendMessage_ignores_blank_input:
  "(\<forall>c\<in>set (input (st w)). isWhiteSpace c) \<Longrightarrow>
     sendMessage now_id now_ts w = w \<and> step w (Submit now_id now_ts) = w"
  by (simp add: sendMessage_def trim_Nil_iff)

theorem sendMessage_ignores_blank_input_witness:
  "input (st (run (lit ''0'') [SetInput (lit ''  '' @ [0x9, 0x3000])])) = lit ''  '' @ [0x9, 0x3000] \<and>
   sendMessage (lit ''5'') (lit ''6'') (run (lit ''0'') [SetInput (lit ''  '' @ [0x9, 0x3000])])
     = run (lit ''0'') [SetInput (lit ''  '' @ [0x9, 0x3000])] \<and>
   step (run (lit ''0'') [SetInput (lit ''  '' @ [0x9, 0x3000])]) (Submit (lit ''5'') (lit ''6''))
     = run (lit ''0'') [SetInput (lit ''  '' @ [0x9, 0x3000])]"
proof -
  have i: "input (st (run (lit ''0'') [SetInput (lit ''  '' @ [0x9, 0x3000])])) = lit ''  '' @ [0x9, 0x3000]"
    by (simp add: run_def mount_def initial_def)
  have h: "\<forall>c\<in>set (input (st (run (lit ''0'') [SetInput (lit ''  '' @ [0x9, 0x3000])]))). isWhiteSpace c"
    by (simp add: run_def mount_def initial_def lit_def isWhiteSpace_def)
  from sendMessage_ignores_blank_input [OF h, of "lit ''5''" "lit ''6''"] i show ?thesis
    by blast
qed

subsection \<open>The result table\<close>

text \<open>Claim C8. For a result payload as the relay's interface describes it (a list of column
  names, a list of rows of scalars, a number as row count), the table shows the column names
  and the first ten rows of the data, in order and cell by cell (all rows when there are ten
  or fewer). The note \<^verbatim>\<open>Showing first 10 rows of N total\<close> is shown exactly when the data has
  more than ten rows, and both it and the label of the header print \<open>N\<close>, the payload's
  \<^verbatim>\<open>row_count\<close>, not the number of rows shown.\<close>

theorem results_table_shows_first_ten_rows:
  assumes "get_prop res (lit ''columns'') = Inr (JArr (map JStr names))"
    and "get_prop res (lit ''data'') = Inr (JArr (map JArr vss))"
    and "\<forall>vs\<in>set vss. \<forall>v\<in>set vs. scalar v"
    and "get_prop res (lit ''row_count'') = Inr (JNum n)"
  shows "render_results res =
           Inr (Block
             \<lparr>row_label = Some (n @ lit '' row'' @ (if n \<noteq> lit ''1'' then lit ''s'' else [])),
              body = TableView
                \<lparr>headers = names,
                 rows = map (map shown_scalar) (take 10 vss),
                 truncation_note =
                   (if 10 < length vss
                    then Some (lit ''Showing first 10 rows of '' @ n @ lit '' total'')
                    else None)\<rparr>\<rparr>)"
proof -
  have t: "truthy res" using assms(1) by (rule get_prop_truthy)
  have "\<forall>vs\<in>set (take 10 vss). \<forall>v\<in>set vs. scalar v"
    using assms(3) by (meson in_set_takeD)
  then have r: "mapE render_row (take 10 (map JArr vss)) = Inr (map (map shown_scalar) (take 10 vss))"
    using mapE_render_row [of "take 10 vss"] by (simp add: take_map)
  have d: "render_data (JArr (map JArr vss))
             = Inr (map (map shown_scalar) (take 10 vss), 10 < length vss)"
    using r by (simp add: bind_def)
  have l: "render_label (JNum n)
             = Inr (Some (n @ lit '' row'' @ (if n \<noteq> lit ''1'' then lit ''s'' else [])))"
    by (simp add: render_label_def bind_def)
  have k: "render_note (10 < length vss) (JNum n)
             = Inr (if 10 < length vss
                    then Some (lit ''Showing first 10 rows of '' @ n @ lit '' total'')
                    else None)"
    by (simp add: render_note_def bind_def)
  show ?thesis
    using t assms(1,2,4) d l k
    by (simp add: render_results_def bind_def mapE_react_child_strings)
qed

theorem results_table_shows_first_ten_rows_witness:
  "get_prop ex_payload (lit ''columns'') = Inr (JArr (map JStr [lit ''name'', lit ''row_count''])) \<and>
   get_prop ex_payload (lit ''data'') = Inr (JArr (map JArr ex_rows)) \<and>
   list_all (list_all scalar) ex_rows \<and>
   length ex_rows = 15 \<and>
   get_prop ex_payload (lit ''row_count'') = Inr (JNum (lit ''15'')) \<and>
   render_results ex_payload =
     Inr (Block
       \<lparr>row_label = Some (lit ''15 rows''),
        body = TableView
          \<lparr>headers = [lit ''name'', lit ''row_count''],
           rows =
           [[Text (lit ''orders''), Text (lit ''120'')],
            [Text (lit ''users''), Text (lit ''48'')],
            [Text (lit ''events''), NullCell],
            [Text (lit ''carts''), Text (lit ''7'')],
            [Text (lit ''items''), Text (lit ''1'')],
            [Text (lit ''pages''), Text (lit ''0'')],
            [Text (lit ''visits''), Text (lit ''930'')],
            [Text (lit ''refunds''), Text (lit ''3'')],
            [Text (lit ''stores''), Text (lit ''12'')],
            [Text (lit ''staff''), Text (lit ''64'')]],
           truncation_note = Some (lit ''Showing first 10 rows of 15 total'')\<rparr>\<rparr>)"
proof -
  have h1: "get_prop ex_payload (lit ''columns'') = Inr (JArr (map JStr [lit ''name'', lit ''row_count'']))"
    by (simp add: ex_payload_def own_def lit_def)
  have h2: "get_prop ex_payload (lit ''data'') = Inr (JArr (map JArr ex_rows))"
    by (simp add: ex_payload_def own_def lit_def)
  have h3: "\<forall>vs\<in>set ex_rows. \<forall>v\<in>set vs. scalar v"
    by (simp add: ex_rows_def)
  have h4: "get_prop ex_payload (lit ''row_count'') = Inr (JNum (lit ''15''))"
    by (simp add: ex_payload_def own_def lit_def)
  have s: "list_all (list_all scalar) ex_rows" and n: "length ex_rows = 15"
    by (simp_all add: ex_rows_def)
  have "render_results ex_payload =
     Inr (Block
       \<lparr>row_label = Some (lit ''15 rows''),
        body = TableView
          \<lparr>headers = [lit ''name'', lit ''row_count''],
           rows =
           [[Text (lit ''orders''), Text (lit ''120'')],
            [Text (lit ''users''), Text (lit ''48'')],
            [Text (lit ''events''), NullCell],
            [Text (lit ''carts''), Text (lit ''7'')],
            [Text (lit ''items''), Text (lit ''1'')],
            [Text (lit ''pages''), Text (lit ''0'')],
            [Text (lit ''visits''), Text (lit ''930'')],
            [Text (lit ''refunds''), Text (lit ''3'')],
            [Text (lit ''stores''), Text (lit ''12'')],
            [Text (lit ''staff''), Text (lit ''64'')]],
           truncation_note = Some (lit ''Showing first 10 rows of 15 total'')\<rparr>\<rparr>)"
    using results_table_shows_first_ten_rows [OF h1 h2 h3 h4]
    by (simp add: ex_rows_def lit_def)
  with h1 h2 h4 s n show ?thesis by simp
qed

subsection \<open>The trimmed input\<close>

text \<open>Claim C9. For an accepted submission, the content of the appended user message and the
  content of the request body are both the trimmed input: the input is whitespace, then
  the trimmed input, then whitespace, and the trimmed input neither starts nor ends with
  whitespace.\<close>

theorem accepted_submission_carries_trimmed_input:
  assumes "trim (input (st w)) \<noteq> []" and "\<not> isLoading (st w)"
  shows "(\<exists>um q. messages (st (sendMessage now_id now_ts w)) = messages (st w) @ [um] \<and>
            requests (sendMessage now_id now_ts w) = requests w @ [q] \<and>
            content um = JStr (trim (input (st w))) \<and>
            req_content q = JStr (trim (input (st w)))) \<and>
         (\<exists>l r. input (st w) = l @ trim (input (st w)) @ r \<and>
            (\<forall>x\<in>set l. isWhiteSpace x) \<and> (\<forall>x\<in>set r. isWhiteSpace x)) \<and>
         \<not> isWhiteSpace (hd (trim (input (st w)))) \<and>
         \<not> isWhiteSpace (last (trim (input (st w))))"
proof -
  have a: "\<exists>um q. messages (st (sendMessage now_id now_ts w)) = messages (st w) @ [um] \<and>
            requests (sendMessage now_id now_ts w) = requests w @ [q] \<and>
            content um = JStr (trim (input (st w))) \<and>
            req_content q = JStr (trim (input (st w)))"
    using assms by (simp add: sendMessage_def Let_def)
  from a trim_decomp [of "input (st w)"] trim_ends [OF assms(1)] show ?thesis
    by blast
qed

theorem accepted_submission_carries_trimmed_input_witness:
  "trim (input (st (run (lit ''0'') ex_typed))) \<noteq> [] \<and>
   \<not> isLoading (st (run (lit ''0'') ex_typed)) \<and>
   input (st (run (lit ''0'') ex_typed)) = lit '' What tables are available?  '' \<and>
   trim (input (st (run (lit ''0'') ex_typed))) = lit ''What tables are available?'' \<and>
   (\<exists>um q. messages (st (sendMessage (lit ''5'') (lit ''6'') (run (lit ''0'') ex_typed)))
              = messages (st (run (lit ''0'') ex_typed)) @ [um] \<and>
            requests (sendMessage (lit ''5'') (lit ''6'') (run (lit ''0'') ex_typed))
              = requests (run (lit ''0'') ex_typed) @ [q] \<and>
            content um = JStr (lit ''What tables are available?'') \<and>
            req_content q = JStr (lit ''What tables are available?''))"
proof -
  have h1: "trim (input (st (run (lit ''0'') ex_typed))) \<noteq> []"
    by (simp add: run_def mount_def initial_def trim_def lit_def isWhiteSpace_def ex_typed_def)
  have h2: "\<not> isLoading (st (run (lit ''0'') ex_typed))"
    by (simp add: run_def mount_def initial_def ex_typed_def)
  have i: "input (st (run (lit ''0'') ex_typed)) = lit '' What tables are available?  ''"
    by (simp add: run_def mount_def initial_def ex_typed_def)
  have t: "trim (input (st (run (lit ''0'') ex_typed))) = lit ''What tables are available?''"
    by (simp add: run_def mount_def initial_def trim_def lit_def isWhiteSpace_def ex_typed_def)
  from accepted_submission_carries_trimmed_input [OF h1 h2, of "lit ''5''" "lit ''6''"]
  have "\<exists>um q. messages (st (sendMessage (lit ''5'') (lit ''6'') (run (lit ''0'') ex_typed)))
              = messages (st (run (lit ''0'') ex_typed)) @ [um] \<and>
            requests (sendMessage (lit ''5'') (lit ''6'') (run (lit ''0'') ex_typed))
              = requests (run (lit ''0'') ex_typed) @ [q] \<and>
            content um = JStr (lit ''What tables are available?'') \<and>
            req_content q = JStr (lit ''What tables are available?'')"
    unfolding t by blast
  with h1 h2 i t show ?thesis by blast
qed

subsection \<open>The welcome message\<close>

text \<open>Claim C10. After every run of the mounted component (any inputs, submits and settled
  exchanges, successful or failed) the message list is not empty and its first element is the
  welcome message the component was seeded with, unmodified.\<close>

theorem welcome_message_stays_first:
  "messages (st (run t0 evs)) \<noteq> [] \<and> hd (messages (st (run t0 evs))) = welcomeMessage t0"
  using pending_ok_run [of t0 evs]
  by (auto simp add: pending_ok_def split: list.splits)

end
